theory Spec2Isabelle
  imports Main "HOL-Library.Word"
begin

section \<open>C strings and formatting\<close>

text \<open>
  A C string is modelled by the list of its characters before the terminating NUL;
  a \<open>char\<close> is one byte. A pointer that may be \<open>NULL\<close> is a \<open>string option\<close>.
  File contents are byte sequences of the same type.
\<close>

type_synonym path = string
type_synonym bytes = string

text \<open>\<open>strcmp\<close>: the sign of the first difference, bytes compared as unsigned values.\<close>

fun strcmp :: "string \<Rightarrow> string \<Rightarrow> int" where
  "strcmp [] [] = 0"
| "strcmp [] (b # bs) = - 1"
| "strcmp (a # as) [] = 1"
| "strcmp (a # as) (b # bs) =
     (if a = b then strcmp as bs
      else if (of_char a :: nat) < of_char b then - 1 else 1)"

text \<open>\<open>tolower\<close> in the C locale, and \<open>strcasecmp\<close>, which compares after folding.\<close>

definition c_tolower :: "char \<Rightarrow> char" where
  "c_tolower c =
     (let n = (of_char c :: nat) in if 65 \<le> n \<and> n \<le> 90 then char_of (n + 32) else c)"

fun strcasecmp :: "string \<Rightarrow> string \<Rightarrow> int" where
  "strcasecmp [] [] = 0"
| "strcasecmp [] (b # bs) = - 1"
| "strcasecmp (a # as) [] = 1"
| "strcasecmp (a # as) (b # bs) =
     (if c_tolower a = c_tolower b then strcasecmp as bs
      else if (of_char (c_tolower a) :: nat) < of_char (c_tolower b) then - 1 else 1)"

text \<open>The conversion \<open>%d\<close> of \<open>fprintf\<close> applied to an \<open>int\<close> (32 bits, signed).\<close>

fun dec_nat :: "nat \<Rightarrow> string" where
  "dec_nat n =
     (if n < 10 then [char_of (48 + n)]
      else dec_nat (n div 10) @ [char_of (48 + n mod 10)])"

declare dec_nat.simps [simp del]

definition fmt_d :: "32 word \<Rightarrow> string" where
  "fmt_d r =
     (let i = sint r in if i < 0 then CHR ''-'' # dec_nat (nat (- i)) else dec_nat (nat i))"

definition nl :: string where
  "nl = [CHR 0x0A]"

definition dquote :: string where
  "dquote = [CHR 0x22]"

section \<open>The file system, the standard error stream and the command interpreter\<close>

text \<open>
  The state the plugin acts on: the files on disk (a map from paths to contents), the
  space left for each of them, the lines the plugin has printed on standard error, and
  the commands it has passed to \<open>system()\<close>, both in order. \<open>space w p\<close> is the
  number of bytes by which the file at \<open>p\<close> can still grow (disk space, a quota);
  \<open>None\<close> stands for no bound.
\<close>

record world =
  files :: "path \<rightharpoonup> bytes"
  space :: "path \<Rightarrow> nat option"
  stderr :: "string list"
  execs :: "string list"

text \<open>
  The environment decides what the source leaves to the operating system: whether a path
  may be opened for reading or for writing, whether a file may be removed, and what a
  shell command does to the files and which status \<open>system()\<close> returns for it.
  Permissions do not change during a call. The source looks at the result of every
  \<open>fopen\<close> and of \<open>system\<close>, and at no result of \<open>fwrite\<close>, \<open>fclose\<close> or
  \<open>remove\<close>: a write that the file system cuts short and a file that stays where it
  is go unnoticed. A stream opened for reading delivers the whole file.
\<close>

record env =
  can_read :: "path \<Rightarrow> bool"
  can_write :: "path \<Rightarrow> bool"
  can_remove :: "path \<Rightarrow> bool"
  run :: "string \<Rightarrow> (path \<rightharpoonup> bytes) \<Rightarrow> 32 word \<times> (path \<rightharpoonup> bytes)"

text \<open>The bytes of a file, none when there is no such file.\<close>

definition bytes_at :: "world \<Rightarrow> path \<Rightarrow> bytes" where
  "bytes_at w p = (case files w p of None \<Rightarrow> [] | Some old \<Rightarrow> old)"

text \<open>
  The size the file at \<open>p\<close> can reach: its size and the space left for it.
\<close>

definition room :: "world \<Rightarrow> path \<Rightarrow> nat option" where
  "room w p = map_option (\<lambda>n. n + length (bytes_at w p)) (space w p)"

text \<open>What the file system takes of a buffer when \<open>left\<close> bytes can still be written.\<close>

definition accepted :: "nat option \<Rightarrow> bytes \<Rightarrow> bytes" where
  "accepted left buffer = (case left of None \<Rightarrow> buffer | Some n \<Rightarrow> take n buffer)"

text \<open>\<open>fopen(p, "r")\<close>: the content to be read, or \<open>None\<close> for a \<open>NULL\<close> stream.\<close>

definition fopen_r :: "env \<Rightarrow> path \<Rightarrow> world \<Rightarrow> bytes option" where
  "fopen_r e p w = (if can_read e p then files w p else None)"

text \<open>
  \<open>fopen(p, "w")\<close>: creates the file or truncates it, which gives back the space the
  old content took; \<open>None\<close> for a \<open>NULL\<close> stream.
\<close>

definition fopen_w :: "env \<Rightarrow> path \<Rightarrow> world \<Rightarrow> world option" where
  "fopen_w e p w =
     (if can_write e p
      then Some (w\<lparr>files := (files w)(p \<mapsto> []), space := (space w)(p := room w p)\<rparr>)
      else None)"

text \<open>
  \<open>fwrite\<close> on a stream opened for writing, with the \<open>fclose\<close> that flushes it:
  the file grows by the bytes of the buffer for which there is space, perhaps by none.
  The number of bytes written is the result the source ignores.
\<close>

definition fwrite :: "path \<Rightarrow> bytes \<Rightarrow> world \<Rightarrow> world" where
  "fwrite p buffer w =
     (case files w p of
        None \<Rightarrow> w
      | Some old \<Rightarrow>
          (let written = accepted (space w p) buffer
           in w\<lparr>files := (files w)(p \<mapsto> old @ written),
                space := (space w)(p := map_option (\<lambda>n. n - length written) (space w p))\<rparr>))"

text \<open>\<open>remove\<close> unlinks the file when the environment lets it, and does nothing otherwise.\<close>

definition remove_file :: "env \<Rightarrow> path \<Rightarrow> world \<Rightarrow> world" where
  "remove_file e p w =
     (if can_remove e p
      then w\<lparr>files := (files w)(p := None), space := (space w)(p := room w p)\<rparr>
      else w)"

text \<open>
  \<open>system()\<close>: the command changes the files and yields a status. The space is the
  one the plugin meets when it writes; the command leaves it as it is.
\<close>

definition system :: "env \<Rightarrow> string \<Rightarrow> world \<Rightarrow> 32 word \<times> world" where
  "system e command w =
     (let (ret, fs) = run e command (files w)
      in (ret, w\<lparr>files := fs, execs := execs w @ [command]\<rparr>))"

text \<open>The colored print macros.\<close>

definition COLOR_RED :: string where
  "COLOR_RED = CHR 0x1B # ''[1;31m''"

definition COLOR_RESET :: string where
  "COLOR_RESET = CHR 0x1B # ''[0m''"

definition PRINT_ERROR :: "string \<Rightarrow> world \<Rightarrow> world" where
  "PRINT_ERROR msg w =
     w\<lparr>stderr := stderr w @ [COLOR_RED @ ''[PLUGIN] ERROR: '' @ msg @ COLOR_RESET]\<rparr>"

definition PRINT_INFO :: "string \<Rightarrow> world \<Rightarrow> world" where
  "PRINT_INFO msg w = w\<lparr>stderr := stderr w @ [''[PLUGIN] '' @ msg]\<rparr>"

text \<open>
  The copying loop of both steps:
  \<^verbatim>\<open>while ((bytes_read = fread(buffer, 1, sizeof(buffer), fp_in)) > 0)
      fwrite(buffer, 1, bytes_read, fp_out);\<close>
  with a buffer of 4096 bytes; \<open>inp\<close> is what is left to read of the input stream.
\<close>

function copy_stream :: "bytes \<Rightarrow> path \<Rightarrow> world \<Rightarrow> world" where
  "copy_stream inp dst w =
     (let buffer = take 4096 inp; bytes_read = length buffer
      in if bytes_read > 0 then copy_stream (drop 4096 inp) dst (fwrite dst buffer w) else w)"
  by pat_completeness auto
termination
  by (relation "measure (\<lambda>(inp, dst, w). length inp)") auto

declare copy_stream.simps [simp del]

section \<open>The patcher: \<open>my_optimize_func\<close>\<close>

record my_callback_params_t =
  keep_files :: bool

text \<open>Which \<open>return\<close> of \<open>my_optimize_func\<close> was taken.\<close>

datatype outcome =
    Skipped_no_asm
  | Skipped_not_s
  | Failed_copy_open
  | Failed_orig_open
  | Failed_optimizer "32 word"
  | Failed_opt_open
  | Failed_write_open
  | Executed

text \<open>
  The derived names: \<open>strncpy\<close> copies the name without its last two characters
  and \<open>strcpy\<close> writes the new suffix after them. The buffers hold \<open>len + 5\<close> and
  \<open>len + 6\<close> bytes, which is what the two names and their terminators need.
\<close>

definition filename_optimized :: "string \<Rightarrow> string" where
  "filename_optimized filename = take (length filename - 2) filename @ ''.opt.s''"

definition filename_copy :: "string \<Rightarrow> string" where
  "filename_copy filename = take (length filename - 2) filename @ ''.copy.s''"

text \<open>The test that the name ends with \<open>.s\<close>.\<close>

definition ends_with_s :: "string \<Rightarrow> bool" where
  "ends_with_s filename =
     (let len = length filename
      in \<not> (len < 2 \<or> strcmp (drop (len - 2) filename) ''.s'' \<noteq> 0))"

text \<open>
  The command line: \<open>snprintf\<close> into a buffer of 512 bytes keeps at most 511
  characters.
\<close>

definition command_line :: "string \<Rightarrow> string" where
  "command_line filename =
     take 511 (''python3 $GDK/tools/optimize_lst.py '' @ dquote @ filename @ dquote
               @ '' '' @ dquote @ filename_optimized filename @ dquote @ '' 1>&2'')"

text \<open>
  Keeping a copy of the original file. The result is \<open>Inl\<close> with the
  state at the early \<open>return\<close>, or \<open>Inr\<close> with the state after the copy.
\<close>

definition keep_copy :: "env \<Rightarrow> string \<Rightarrow> world \<Rightarrow> (outcome \<times> world) + world" where
  "keep_copy e filename w =
     (case fopen_w e (filename_copy filename) w of
        None \<Rightarrow>
          Inl (Failed_copy_open,
               PRINT_ERROR (''Failed to open '' @ filename_copy filename @ '' for writing'' @ nl) w)
      | Some w1 \<Rightarrow>
          (case fopen_r e filename w1 of
             None \<Rightarrow>
               Inl (Failed_orig_open,
                    PRINT_ERROR (''Failed to open '' @ filename @ '' for reading'' @ nl) w1)
           | Some orig \<Rightarrow> Inr (copy_stream orig (filename_copy filename) w1)))"

text \<open>Running the optimizer and replacing the content of the file with its output.\<close>

definition optimize_and_replace ::
  "env \<Rightarrow> string \<Rightarrow> my_callback_params_t \<Rightarrow> world \<Rightarrow> outcome \<times> world" where
  "optimize_and_replace e filename my_params w =
     (let (ret, w1) = system e (command_line filename) w
      in if ret \<noteq> 0
         then (Failed_optimizer ret,
               PRINT_ERROR (''Python optimizer failed with code '' @ fmt_d ret @ nl) w1)
         else
           (case fopen_r e (filename_optimized filename) w1 of
              None \<Rightarrow>
                (Failed_opt_open,
                 PRINT_ERROR (''Failed to open '' @ filename_optimized filename
                              @ '' for reading'' @ nl) w1)
            | Some optimized \<Rightarrow>
                (case fopen_w e filename w1 of
                   None \<Rightarrow>
                     (Failed_write_open,
                      PRINT_ERROR (''Failed to open '' @ filename @ '' for writing'' @ nl) w1)
                 | Some w2 \<Rightarrow>
                     (let w3 = copy_stream optimized filename w2;
                          w4 = (if \<not> keep_files my_params
                                then remove_file e (filename_optimized filename) w3 else w3)
                      in (Executed,
                          PRINT_INFO (''Optimizer executed on: '' @ filename @ nl) w4)))))"

text \<open>
  The whole function. \<open>xmalloc\<close> does not return \<open>NULL\<close>, so the two tests of its
  result never fire; the request is passed by value, and the \<open>free\<close> at the end
  discards it.
\<close>

definition my_optimize_func ::
  "env \<Rightarrow> string option \<Rightarrow> my_callback_params_t \<Rightarrow> world \<Rightarrow> outcome \<times> world" where
  "my_optimize_func e filename_ptr my_params w =
     (case filename_ptr of
        None \<Rightarrow> (Skipped_no_asm, w)
      | Some filename \<Rightarrow>
          if strcmp filename ''/dev/null'' = 0 then (Skipped_no_asm, w)
          else
            (let w1 = PRINT_INFO (''Invoked'' @ nl) w
             in if \<not> ends_with_s filename
                then (Skipped_not_s,
                      PRINT_INFO (''Skipped. Not an .s file: '' @ filename @ nl) w1)
                else
                  (case (if keep_files my_params then keep_copy e filename w1 else Inr w1) of
                     Inl stopped \<Rightarrow> stopped
                   | Inr w2 \<Rightarrow> optimize_and_replace e filename my_params w2)))"

text \<open>
  What the file at \<open>p\<close> holds of the data streamed into it when it is written anew,
  and whether it holds all of it.
\<close>

definition stored :: "world \<Rightarrow> path \<Rightarrow> bytes \<Rightarrow> bytes" where
  "stored w p data = accepted (room w p) data"


text \<open>
  The files as the optimizer finds them when it is started: the files before the call,
  with the copy of the original made when \<open>keep_files\<close> is set.
\<close>

definition files_before_optimizer ::
  "string \<Rightarrow> my_callback_params_t \<Rightarrow> world \<Rightarrow> (path \<rightharpoonup> bytes)" where
  "files_before_optimizer filename my_params w =
     (if keep_files my_params
      then (files w)(filename_copy filename :=
                       map_option (stored w (filename_copy filename)) (files w filename))
      else files w)"

section \<open>Registration: \<open>plugin_init\<close> and \<open>callback\<close>\<close>

text \<open>
  One plugin argument \<open>-fplugin-arg-optimizer_plugin-key=value\<close>. The value is
  optional: for an argument given without \<open>=value\<close> the pointer is \<open>NULL\<close>.
\<close>

record plugin_argument =
  arg_key :: string
  arg_value :: "string option"

text \<open>Passing a \<open>NULL\<close> pointer to \<open>strcasecmp\<close> ends the process.\<close>

datatype fault = Null_dereference

text \<open>
  The test of a value,
  \<^verbatim>\<open>strcasecmp(value, "true") == 0 || strcasecmp(value, "1") == 0\<close>.
\<close>

definition value_is_true :: "string option \<Rightarrow> fault + bool" where
  "value_is_true v =
     (case v of
        None \<Rightarrow> Inl Null_dereference
      | Some s \<Rightarrow> Inr (strcasecmp s ''true'' = 0 \<or> strcasecmp s ''1'' = 0))"

text \<open>
  The test of one argument for a key: \<open>&&\<close> looks at the value only when the key is
  the one asked for.
\<close>

definition key_is_true :: "string \<Rightarrow> plugin_argument \<Rightarrow> fault + bool" where
  "key_is_true k a = (if strcmp (arg_key a) k = 0 then value_is_true (arg_value a) else Inr False)"

text \<open>
  The loop over the arguments: \<open>Inr None\<close> when it returns from \<open>plugin_init\<close> at a
  \<open>disable\<close> argument, otherwise the parameters after the last argument.
\<close>

fun scan_args ::
  "plugin_argument list \<Rightarrow> my_callback_params_t \<Rightarrow> fault + my_callback_params_t option" where
  "scan_args [] my_params = Inr (Some my_params)"
| "scan_args (a # rest) my_params =
     (case key_is_true ''disable'' a of
        Inl crash \<Rightarrow> Inl crash
      | Inr disable \<Rightarrow>
          if disable then Inr None
          else
            (case key_is_true ''keep-files'' a of
               Inl crash \<Rightarrow> Inl crash
             | Inr keep \<Rightarrow>
                 scan_args rest (if keep then my_params\<lparr>keep_files := True\<rparr> else my_params)))"

text \<open>
  \<open>plugin_init\<close> returns its status and the user data registered with the callback
  for \<open>PLUGIN_FINISH\<close>, \<open>None\<close> when \<open>register_callback\<close> is not reached. The result
  of \<open>plugin_default_version_check\<close> is a parameter.
\<close>

definition plugin_init ::
  "bool \<Rightarrow> plugin_argument list \<Rightarrow> world
   \<Rightarrow> fault + (int \<times> my_callback_params_t option \<times> world)" where
  "plugin_init version_ok args w =
     (if \<not> version_ok
      then Inr (1, None, PRINT_ERROR (''Version mismatch in plugin_init()'' @ nl) w)
      else
        (case scan_args args \<lparr>keep_files = False\<rparr> of
           Inl crash \<Rightarrow> Inl crash
         | Inr None \<Rightarrow> Inr (0, None, w)
         | Inr (Some my_params) \<Rightarrow> Inr (0, Some my_params, w)))"

text \<open>The callback reads the name of the assembly file from the compiler's options.\<close>

definition callback ::
  "env \<Rightarrow> string option \<Rightarrow> my_callback_params_t \<Rightarrow> world \<Rightarrow> outcome \<times> world" where
  "callback e x_asm_file_name user_data w = my_optimize_func e x_asm_file_name user_data w"

text \<open>
  The option values of the specification: a value is true when it equals \<open>true\<close>
  up to the case of its letters, or is \<open>1\<close>.
\<close>

definition same_letter :: "char \<Rightarrow> char \<Rightarrow> bool" where
  "same_letter a b \<longleftrightarrow>
     a = b
     \<or> (65 \<le> (of_char a :: nat) \<and> (of_char a :: nat) \<le> 90
         \<and> (of_char b :: nat) = of_char a + 32)
     \<or> (65 \<le> (of_char b :: nat) \<and> (of_char b :: nat) \<le> 90
         \<and> (of_char a :: nat) = of_char b + 32)"

definition option_is_true :: "string \<Rightarrow> bool" where
  "option_is_true v \<longleftrightarrow> list_all2 same_letter v ''true'' \<or> v = ''1''"

section \<open>The second variant: \<open>peephole_optimize\<close>\<close>

definition fprintf_stderr :: "string \<Rightarrow> world \<Rightarrow> world" where
  "fprintf_stderr msg w = w\<lparr>stderr := stderr w @ [msg]\<rparr>"

text \<open>
  The file is read whole: \<open>size\<close> is what \<open>ftell\<close> reports at the end of the
  file, \<open>fread\<close> fills the buffer of \<open>size + 1\<close> bytes with at most \<open>size\<close> bytes,
  a terminator follows, and \<open>fwrite\<close> writes the first \<open>size\<close> bytes of the buffer.
\<close>

definition peephole_optimize :: "env \<Rightarrow> string option \<Rightarrow> world \<Rightarrow> outcome \<times> world" where
  "peephole_optimize e filename_ptr w =
     (case filename_ptr of
        None \<Rightarrow> (Skipped_no_asm, w)
      | Some filename \<Rightarrow>
          if strcmp filename ''/dev/null'' = 0 then (Skipped_no_asm, w)
          else
            (case fopen_r e filename w of
               None \<Rightarrow>
                 (Failed_orig_open,
                  fprintf_stderr (''[PLUGIN] ERROR: Failed to open '' @ filename
                                  @ '' for reading'' @ nl) w)
             | Some stream \<Rightarrow>
                 (let size = length stream;
                      content = take size stream @ [CHR 0x00]
                  in case fopen_w e filename w of
                       None \<Rightarrow>
                         (Failed_write_open,
                          fprintf_stderr (''[PLUGIN] ERROR: Failed to open '' @ filename
                                          @ '' for writing'' @ nl) w)
                     | Some w1 \<Rightarrow>
                         (Executed,
                          fprintf_stderr (''[PLUGIN] Optimizer executed on: '' @ filename @ nl)
                            (fwrite filename (take size content) w1)))))"

section \<open>The contract of the optimizer\<close>


section \<open>A scenario\<close>

text \<open>
  The file \<open>main.s\<close> holds one instruction. The optimizer, when it finds the file,
  either writes a changed instruction to \<open>main.opt.s\<close> and returns 0, or changes
  nothing and returns the status \<open>ret\<close>; without the file it returns 512. Whether
  files can be opened for reading and for writing is fixed for all paths; there is no
  bound on the space.
\<close>

definition scenario_world :: world where
  "scenario_world =
     \<lparr>files = [''main.s'' \<mapsto> ''mov eax, 1'' @ nl], space = (\<lambda>p. None),
      stderr = [], execs = []\<rparr>"

definition scenario_env :: "bool \<Rightarrow> bool \<Rightarrow> 32 word \<Rightarrow> env" where
  "scenario_env readable writable ret =
     \<lparr>can_read = (\<lambda>p. readable),
      can_write = (\<lambda>p. writable),
      can_remove = (\<lambda>p. True),
      run = (\<lambda>command fs.
               case fs ''main.s'' of
                 None \<Rightarrow> (512, fs)
               | Some original \<Rightarrow>
                   if ret = 0 then (0, fs(''main.opt.s'' \<mapsto> ''mov eax, 2'' @ nl))
                   else (ret, fs))\<rparr>"

section \<open>A long output on a full disk\<close>

text \<open>
  The optimizer writes 1025 lines, 4100 bytes, to \<open>main.opt.s\<close> and returns 0; the
  disk has room for them and for 4085 bytes more. The file \<open>main.s\<close> holds 11 bytes,
  so it can reach 4096 bytes.
\<close>

definition long_output :: bytes where
  "long_output = concat (replicate 1025 (''nop'' @ nl))"

definition verbose_env :: env where
  "verbose_env =
     \<lparr>can_read = (\<lambda>p. True),
      can_write = (\<lambda>p. True),
      can_remove = (\<lambda>p. True),
      run = (\<lambda>command fs.
               case fs ''main.s'' of
                 None \<Rightarrow> (512, fs)
               | Some original \<Rightarrow> (0, fs(''main.opt.s'' \<mapsto> long_output)))\<rparr>"

definition full_world :: world where
  "full_world =
     \<lparr>files = [''main.s'' \<mapsto> ''mov eax, 1'' @ nl],
      space = (\<lambda>p. if p = ''main.s'' then Some 4085 else None),
      stderr = [], execs = []\<rparr>"

section \<open>A fussy optimizer on a cramped disk\<close>

text \<open>
  This optimizer replaces the one instruction of \<open>main.s\<close> by two, replaces a lone
  \<open>xor eax, eax\<close> without its line end by a \<open>nop\<close>, and leaves every other
  input as it is: it maps each of its results to itself. The disk has room for what the
  optimizer writes and for one byte more, so the file of 11 bytes can reach 12 bytes.
\<close>

definition fussy_rewrite :: "bytes \<Rightarrow> bytes option" where
  "fussy_rewrite c =
     (if c = ''mov eax, 1'' @ nl then Some (''xor eax, eax'' @ nl @ ''inc eax'' @ nl)
      else if c = ''xor eax, eax'' then Some (''nop'' @ nl)
      else Some c)"

definition fussy_env :: env where
  "fussy_env =
     \<lparr>can_read = (\<lambda>p. True),
      can_write = (\<lambda>p. True),
      can_remove = (\<lambda>p. True),
      run = (\<lambda>command fs.
               case fs ''main.s'' of
                 None \<Rightarrow> (512, fs)
               | Some original \<Rightarrow>
                   (case fussy_rewrite original of
                      None \<Rightarrow> (256, fs)
                    | Some optimized \<Rightarrow> (0, fs(''main.opt.s'' \<mapsto> optimized))))\<rparr>"


section \<open>Properties\<close>

subsection \<open>Strings, writes and the copying loop\<close>

lemma strcmp_eq_iff: "strcmp a b = 0 \<longleftrightarrow> a = b"
  by (induction a b rule: strcmp.induct) auto

lemma accepted_nil [simp]: "accepted left [] = []"
  by (simp add: accepted_def split: option.splits)

lemma accepted_append:
  "accepted left (a @ b)
   = accepted left a @ accepted (map_option (\<lambda>n. n - length (accepted left a)) left) b"
proof (cases left)
  case None
  then show ?thesis by (simp add: accepted_def)
next
  case (Some n)
  have "n - min (length a) n = n - length a"
    by arith
  with Some show ?thesis by (simp add: accepted_def)
qed

lemma accepted_all: "accepted None data = data"
  by (simp add: accepted_def)

lemma copy_stream_append:
  "files w dst = Some old \<Longrightarrow>
   copy_stream inp dst w =
     w\<lparr>files := (files w)(dst \<mapsto> old @ accepted (space w dst) inp),
       space := (space w)(dst := map_option (\<lambda>n. n - length (accepted (space w dst) inp))
                                            (space w dst))\<rparr>"
proof (induction inp dst w arbitrary: old rule: copy_stream.induct)
  case (1 inp dst w)
  show ?case
  proof (cases "inp = []")
    case True
    have "map_option (\<lambda>n. n - 0) (space w dst) = space w dst"
      by (cases "space w dst") simp_all
    with True "1.prems" show ?thesis
      by (subst copy_stream.simps) (simp add: fun_upd_idem)
  next
    case False
    let ?b = "take 4096 inp" and ?r = "drop 4096 inp"
    let ?w = "fwrite dst ?b w"
    have fw: "files ?w dst = Some (old @ accepted (space w dst) ?b)"
      and sw: "space ?w dst
               = map_option (\<lambda>n. n - length (accepted (space w dst) ?b)) (space w dst)"
      using "1.prems" by (simp_all add: fwrite_def Let_def)
    have split: "accepted (space w dst) inp
                 = accepted (space w dst) ?b @ accepted (space ?w dst) ?r"
      using accepted_append [of "space w dst" ?b ?r] by (simp add: sw)
    have "copy_stream inp dst w = copy_stream ?r dst ?w"
      using False by (subst copy_stream.simps) (simp add: Let_def)
    also have "\<dots> = ?w\<lparr>files := (files ?w)(dst \<mapsto> (old @ accepted (space w dst) ?b)
                                          @ accepted (space ?w dst) ?r),
                       space := (space ?w)(dst := map_option
                                   (\<lambda>n. n - length (accepted (space ?w dst) ?r))
                                   (space ?w dst))\<rparr>"
      using False by (intro "1.IH" [OF refl refl _ fw]) simp
    also have "\<dots> = w\<lparr>files := (files w)(dst \<mapsto> old @ accepted (space w dst) inp),
                       space := (space w)(dst := map_option
                                   (\<lambda>n. n - length (accepted (space w dst) inp))
                                   (space w dst))\<rparr>"
      using "1.prems" unfolding split sw
      by (cases "space w dst") (simp_all add: fwrite_def Let_def)
    finally show ?thesis .
  qed
qed

lemma ends_with_s_iff: "ends_with_s filename \<longleftrightarrow> (\<exists>base. filename = base @ ''.s'')"
proof
  assume h: "ends_with_s filename"
  then have "2 \<le> length filename" and "drop (length filename - 2) filename = ''.s''"
    by (auto simp: ends_with_s_def Let_def strcmp_eq_iff)
  then have "filename = take (length filename - 2) filename @ ''.s''"
    by (metis append_take_drop_id)
  then show "\<exists>base. filename = base @ ''.s''" ..
next
  assume "\<exists>base. filename = base @ ''.s''"
  then show "ends_with_s filename"
    by (auto simp: ends_with_s_def Let_def strcmp_eq_iff)
qed

lemma length_filename_optimized: "length (filename_optimized f) = length f - 2 + 6"
  by (simp add: filename_optimized_def)

lemma length_filename_copy: "length (filename_copy f) = length f - 2 + 7"
  by (simp add: filename_copy_def)

lemma optimized_neq: "filename_optimized f \<noteq> f"
proof
  assume "filename_optimized f = f"
  then have "length (filename_optimized f) = length f" by simp
  then show False unfolding length_filename_optimized by arith
qed

lemma copy_neq: "filename_copy f \<noteq> f"
proof
  assume "filename_copy f = f"
  then have "length (filename_copy f) = length f" by simp
  then show False unfolding length_filename_copy by arith
qed

lemma copy_neq_optimized: "filename_copy f \<noteq> filename_optimized f"
proof
  assume "filename_copy f = filename_optimized f"
  then have "length (filename_copy f) = length (filename_optimized f)" by simp
  then show False unfolding length_filename_copy length_filename_optimized by arith
qed

lemmas names_distinct [simp] =
  optimized_neq optimized_neq [symmetric] copy_neq copy_neq [symmetric]
  copy_neq_optimized copy_neq_optimized [symmetric]

lemma fwrite_simps [simp]:
  "execs (fwrite p buffer w) = execs w" "stderr (fwrite p buffer w) = stderr w"
  by (simp_all add: fwrite_def Let_def split: option.splits)

text \<open>A file opened for writing and then written from a stream.\<close>

lemma written_anew:
  assumes "fopen_w e p w = Some w1"
  shows "copy_stream inp p w1 =
     w\<lparr>files := (files w)(p \<mapsto> stored w p inp),
       space := (space w)(p := map_option (\<lambda>n. n - length (stored w p inp)) (room w p))\<rparr>"
proof -
  have w1: "w1 = w\<lparr>files := (files w)(p \<mapsto> []), space := (space w)(p := room w p)\<rparr>"
    using assms by (simp add: fopen_w_def split: if_splits)
  have "files w1 p = Some []"
    by (simp add: w1)
  from copy_stream_append [OF this, of inp] show ?thesis
    by (simp add: w1 stored_def)
qed




lemma files_PRINT [simp]:
  "files (PRINT_ERROR m w) = files w" "files (PRINT_INFO m w) = files w"
  "execs (PRINT_ERROR m w) = execs w" "execs (PRINT_INFO m w) = execs w"
  "space (PRINT_ERROR m w) = space w" "space (PRINT_INFO m w) = space w"
  "stderr (PRINT_ERROR m w) = stderr w @ [COLOR_RED @ ''[PLUGIN] ERROR: '' @ m @ COLOR_RESET]"
  "stderr (PRINT_INFO m w) = stderr w @ [''[PLUGIN] '' @ m]"
  by (simp_all add: PRINT_ERROR_def PRINT_INFO_def)

lemma room_cong: "files v p = files w p \<Longrightarrow> space v p = space w p \<Longrightarrow> room v p = room w p"
  by (simp add: room_def bytes_at_def)

lemma stored_cong:
  "files v p = files w p \<Longrightarrow> space v p = space w p \<Longrightarrow> stored v p = stored w p"
  using room_cong [of v p w] by (simp add: stored_def fun_eq_iff)

lemma fopen_PRINT [simp]:
  "fopen_r e f (PRINT_INFO m w) = fopen_r e f w"
  "fopen_r e f (PRINT_ERROR m w) = fopen_r e f w"
  by (simp_all add: fopen_r_def)

lemma remove_file_simps [simp]:
  "files (remove_file e p w) = (if can_remove e p then (files w)(p := None) else files w)"
  "execs (remove_file e p w) = execs w"
  "stderr (remove_file e p w) = stderr w"
  "q \<noteq> p \<Longrightarrow> space (remove_file e p w) q = space w q"
  by (simp_all add: remove_file_def)

subsection \<open>The two stages and the whole function\<close>

lemma keep_copy_eq:
  "keep_copy e f w =
     (if \<not> can_write e (filename_copy f)
      then Inl (Failed_copy_open,
                PRINT_ERROR (''Failed to open '' @ filename_copy f @ '' for writing'' @ nl) w)
      else if fopen_r e f w = None
      then Inl (Failed_orig_open,
                PRINT_ERROR (''Failed to open '' @ f @ '' for reading'' @ nl)
                  (w\<lparr>files := (files w)(filename_copy f \<mapsto> []),
                     space := (space w)(filename_copy f := room w (filename_copy f))\<rparr>))
      else Inr (w\<lparr>files := (files w)(filename_copy f :=
                                       map_option (stored w (filename_copy f)) (files w f)),
                  space := (space w)(filename_copy f :=
                     map_option (\<lambda>n. n - length (stored w (filename_copy f) (bytes_at w f)))
                                (room w (filename_copy f)))\<rparr>))"
proof (cases "can_write e (filename_copy f)")
  case False
  then show ?thesis by (simp add: keep_copy_def fopen_w_def)
next
  case True
  let ?w1 = "w\<lparr>files := (files w)(filename_copy f \<mapsto> []),
               space := (space w)(filename_copy f := room w (filename_copy f))\<rparr>"
  have o: "fopen_w e (filename_copy f) w = Some ?w1"
    using True by (simp add: fopen_w_def)
  have r: "fopen_r e f ?w1 = fopen_r e f w"
    by (simp add: fopen_r_def)
  show ?thesis
  proof (cases "fopen_r e f w")
    case None
    with True o r show ?thesis by (simp add: keep_copy_def)
  next
    case (Some orig)
    then have "files w f = Some orig"
      by (simp add: fopen_r_def split: if_splits)
    with True o r Some written_anew [OF o, of orig] show ?thesis
      by (simp add: keep_copy_def bytes_at_def)
  qed
qed

text \<open>The second stage, once the status and the files the optimizer left are known.\<close>

lemma optimize_and_replace_eq:
  assumes "run e (command_line f) (files w) = (ret, fs)"
  shows "optimize_and_replace e f p w =
     (let w1 = w\<lparr>files := fs, execs := execs w @ [command_line f]\<rparr>
      in if ret \<noteq> 0
         then (Failed_optimizer ret,
               PRINT_ERROR (''Python optimizer failed with code '' @ fmt_d ret @ nl) w1)
         else if \<not> can_read e (filename_optimized f) \<or> fs (filename_optimized f) = None
         then (Failed_opt_open,
               PRINT_ERROR (''Failed to open '' @ filename_optimized f @ '' for reading'' @ nl) w1)
         else if \<not> can_write e f
         then (Failed_write_open,
               PRINT_ERROR (''Failed to open '' @ f @ '' for writing'' @ nl) w1)
         else
           (let w3 = w1\<lparr>files := fs(f := map_option (stored w1 f) (fs (filename_optimized f))),
                         space := (space w)(f := map_option
                            (\<lambda>n. n - length (stored w1 f (bytes_at w1 (filename_optimized f))))
                            (room w1 f))\<rparr>
            in (Executed,
                PRINT_INFO (''Optimizer executed on: '' @ f @ nl)
                  (if keep_files p then w3 else remove_file e (filename_optimized f) w3))))"
proof -
  let ?w1 = "w\<lparr>files := fs, execs := execs w @ [command_line f]\<rparr>"
  have sys: "system e (command_line f) w = (ret, ?w1)"
    using assms by (simp add: system_def)
  show ?thesis
  proof (cases "ret \<noteq> 0 \<or> fopen_r e (filename_optimized f) ?w1 = None \<or> \<not> can_write e f")
    case True
    then show ?thesis
      by (auto simp: optimize_and_replace_def sys fopen_r_def fopen_w_def Let_def
            split: option.splits if_splits)
  next
    case False
    then obtain optimized where opt: "fopen_r e (filename_optimized f) ?w1 = Some optimized"
      by auto
    then have fo: "fs (filename_optimized f) = Some optimized"
      and cr: "can_read e (filename_optimized f)"
      by (auto simp: fopen_r_def split: if_splits)
    obtain w2 where o: "fopen_w e f ?w1 = Some w2"
      using False by (auto simp: fopen_w_def)
    from False fo cr opt o written_anew [OF o, of optimized] show ?thesis
      by (simp add: optimize_and_replace_def sys Let_def bytes_at_def)
  qed
qed

lemma ends_with_s_not_dev_null: "ends_with_s f \<Longrightarrow> strcmp f ''/dev/null'' \<noteq> 0"
  by (auto simp: strcmp_eq_iff ends_with_s_def)

lemma my_optimize_func_eq:
  assumes "ends_with_s f"
  shows "my_optimize_func e (Some f) p w =
     (case (if keep_files p then keep_copy e f (PRINT_INFO (''Invoked'' @ nl) w)
            else Inr (PRINT_INFO (''Invoked'' @ nl) w)) of
        Inl stopped \<Rightarrow> stopped
      | Inr w2 \<Rightarrow> optimize_and_replace e f p w2)"
  using assms ends_with_s_not_dev_null [OF assms]
  by (simp add: my_optimize_func_def Let_def)

lemma PRINT_update [simp]:
  "(PRINT_INFO m w)\<lparr>files := fs\<rparr> = PRINT_INFO m (w\<lparr>files := fs\<rparr>)"
  "(PRINT_ERROR m w)\<lparr>files := fs\<rparr> = PRINT_ERROR m (w\<lparr>files := fs\<rparr>)"
  "(PRINT_INFO m w)\<lparr>space := sp\<rparr> = PRINT_INFO m (w\<lparr>space := sp\<rparr>)"
  "(PRINT_ERROR m w)\<lparr>space := sp\<rparr> = PRINT_ERROR m (w\<lparr>space := sp\<rparr>)"
  by (simp_all add: PRINT_INFO_def PRINT_ERROR_def)

lemma PRINT_derived [simp]:
  "room (PRINT_INFO m w) = room w" "stored (PRINT_INFO m w) = stored w"
  "bytes_at (PRINT_INFO m w) = bytes_at w"
  by (simp_all add: room_def stored_def bytes_at_def fun_eq_iff)

text \<open>
  The result when the copy, if any, has been made: the second stage starts from the files
  with the copy; the space has changed for the copy alone.
\<close>

lemma my_optimize_func_copied:
  assumes "ends_with_s f"
    and "keep_files p \<longrightarrow> can_write e (filename_copy f) \<and> fopen_r e f w \<noteq> None"
  shows "\<exists>sp. (\<forall>q. q \<noteq> filename_copy f \<longrightarrow> sp q = space w q)
          \<and> my_optimize_func e (Some f) p w =
              optimize_and_replace e f p
                (PRINT_INFO (''Invoked'' @ nl)
                   (w\<lparr>files := files_before_optimizer f p w, space := sp\<rparr>))"
proof (cases "keep_files p")
  case False
  then have "my_optimize_func e (Some f) p w =
      optimize_and_replace e f p
        (PRINT_INFO (''Invoked'' @ nl) (w\<lparr>files := files_before_optimizer f p w, space := space w\<rparr>))"
    using assms(1) by (simp add: my_optimize_func_eq files_before_optimizer_def)
  then show ?thesis by blast
next
  case True
  let ?sp = "(space w)(filename_copy f :=
               map_option (\<lambda>n. n - length (stored w (filename_copy f) (bytes_at w f)))
                          (room w (filename_copy f)))"
  have "my_optimize_func e (Some f) p w =
      optimize_and_replace e f p
        (PRINT_INFO (''Invoked'' @ nl) (w\<lparr>files := files_before_optimizer f p w, space := ?sp\<rparr>))"
    using assms True by (auto simp: my_optimize_func_eq keep_copy_eq files_before_optimizer_def)
  moreover have "\<forall>q. q \<noteq> filename_copy f \<longrightarrow> ?sp q = space w q"
    by simp
  ultimately show ?thesis by blast
qed

text \<open>The result when the function reaches its end.\<close>

lemma executed_result:
  assumes s: "ends_with_s f"
    and copied: "keep_files p \<longrightarrow> can_write e (filename_copy f) \<and> fopen_r e f w \<noteq> None"
    and r: "run e (command_line f) (files_before_optimizer f p w) = (0, fs)"
    and opt: "can_read e (filename_optimized f)" "fs (filename_optimized f) = Some out"
    and wr: "can_write e f"
    and same: "fs f = files w f"
  shows "fst (my_optimize_func e (Some f) p w) = Executed"
    and "files (snd (my_optimize_func e (Some f) p w)) f = Some (stored w f out)"
    and "files (snd (my_optimize_func e (Some f) p w)) (filename_optimized f)
         = (if keep_files p \<or> \<not> can_remove e (filename_optimized f) then Some out else None)"
    and "files (snd (my_optimize_func e (Some f) p w)) (filename_copy f) = fs (filename_copy f)"
    and "stderr (snd (my_optimize_func e (Some f) p w))
         = stderr w @ [''[PLUGIN] Invoked'' @ nl, ''[PLUGIN] Optimizer executed on: '' @ f @ nl]"
    and "room (snd (my_optimize_func e (Some f) p w)) f = room w f"
proof -
  from my_optimize_func_copied [OF s copied] obtain sp where
    sp: "\<forall>q. q \<noteq> filename_copy f \<longrightarrow> sp q = space w q"
    and eq: "my_optimize_func e (Some f) p w =
           optimize_and_replace e f p
             (PRINT_INFO (''Invoked'' @ nl)
                (w\<lparr>files := files_before_optimizer f p w, space := sp\<rparr>))"
    by blast
  let ?w0 = "PRINT_INFO (''Invoked'' @ nl) (w\<lparr>files := files_before_optimizer f p w, space := sp\<rparr>)"
  let ?w1 = "?w0\<lparr>files := fs, execs := execs ?w0 @ [command_line f]\<rparr>"
  have run': "run e (command_line f) (files ?w0) = (0, fs)"
    using r by simp
  have spf: "sp f = space w f"
    using sp by simp
  have rm: "room ?w1 f = room w f"
    by (rule room_cong) (simp_all add: same spf)
  have st: "stored ?w1 f = stored w f"
    by (rule stored_cong) (simp_all add: same spf)
  have len: "map_option (\<lambda>n. n - length (stored w f out) + length (stored w f out)) (room w f)
             = room w f"
    by (cases "room w f") (simp_all add: stored_def accepted_def)
  note res = optimize_and_replace_eq [OF run', of p, folded eq] Let_def opt wr same spf
    stored_def room_def bytes_at_def
  show "fst (my_optimize_func e (Some f) p w) = Executed"
    by (simp add: res)
  show "files (snd (my_optimize_func e (Some f) p w)) f = Some (stored w f out)"
    by (simp add: res)
  show "files (snd (my_optimize_func e (Some f) p w)) (filename_optimized f)
         = (if keep_files p \<or> \<not> can_remove e (filename_optimized f) then Some out else None)"
    by (simp add: res)
  show "files (snd (my_optimize_func e (Some f) p w)) (filename_copy f) = fs (filename_copy f)"
    by (simp add: res)
  show "stderr (snd (my_optimize_func e (Some f) p w))
         = stderr w @ [''[PLUGIN] Invoked'' @ nl, ''[PLUGIN] Optimizer executed on: '' @ f @ nl]"
    by (simp add: res)
  show "room (snd (my_optimize_func e (Some f) p w)) f = room w f"
    using len by (simp add: res option.map_comp comp_def)
qed

text \<open>The result when the function stops after the optimizer has run.\<close>

lemma stopped_result:
  assumes s: "ends_with_s f"
    and copied: "keep_files p \<longrightarrow> can_write e (filename_copy f) \<and> fopen_r e f w \<noteq> None"
    and r: "run e (command_line f) (files_before_optimizer f p w) = (ret, fs)"
    and stop: "ret \<noteq> 0 \<or> \<not> can_read e (filename_optimized f) \<or> fs (filename_optimized f) = None
               \<or> \<not> can_write e f"
  shows "fst (my_optimize_func e (Some f) p w) \<noteq> Executed"
    and "files (snd (my_optimize_func e (Some f) p w)) = fs"
proof -
  from my_optimize_func_copied [OF s copied] obtain sp where
    eq: "my_optimize_func e (Some f) p w =
           optimize_and_replace e f p
             (PRINT_INFO (''Invoked'' @ nl)
                (w\<lparr>files := files_before_optimizer f p w, space := sp\<rparr>))"
    by blast
  let ?w0 = "PRINT_INFO (''Invoked'' @ nl) (w\<lparr>files := files_before_optimizer f p w, space := sp\<rparr>)"
  have run': "run e (command_line f) (files ?w0) = (ret, fs)"
    using r by simp
  note res = optimize_and_replace_eq [OF run', of p, folded eq] Let_def
  show "fst (my_optimize_func e (Some f) p w) \<noteq> Executed"
    using stop by (auto simp: res)
  show "files (snd (my_optimize_func e (Some f) p w)) = fs"
    using stop by (auto simp: res)
qed

text \<open>The result when the copy cannot be made.\<close>

lemma copy_failed_result:
  assumes s: "ends_with_s f"
    and failed: "\<not> (keep_files p \<longrightarrow> can_write e (filename_copy f) \<and> fopen_r e f w \<noteq> None)"
  shows "fst (my_optimize_func e (Some f) p w) \<noteq> Executed"
    and "files (snd (my_optimize_func e (Some f) p w)) f = files w f"
  using failed by (auto simp: my_optimize_func_eq [OF s] keep_copy_eq split: if_splits)

text \<open>Every early return leaves the file as it was, when the optimizer does.\<close>

lemma early_return_keeps_original:
  assumes "ends_with_s f"
    and "snd (run e (command_line f) (files_before_optimizer f p w)) f = files w f"
    and "fst (my_optimize_func e (Some f) p w) \<noteq> Executed"
  shows "files (snd (my_optimize_func e (Some f) p w)) f = files w f"
proof (cases "keep_files p \<longrightarrow> can_write e (filename_copy f) \<and> fopen_r e f w \<noteq> None")
  case False
  then show ?thesis by (rule copy_failed_result(2) [OF assms(1)])
next
  case True
  note copied = True
  obtain ret fs where r: "run e (command_line f) (files_before_optimizer f p w) = (ret, fs)"
    by (cases "run e (command_line f) (files_before_optimizer f p w)")
  then have same: "fs f = files w f"
    using assms(2) by simp
  show ?thesis
  proof (cases "ret \<noteq> 0 \<or> \<not> can_read e (filename_optimized f) \<or> fs (filename_optimized f) = None
               \<or> \<not> can_write e f")
    case True
    with stopped_result(2) [OF assms(1) copied r] same show ?thesis
      by simp
  next
    case False
    then obtain out where "fs (filename_optimized f) = Some out"
      by auto
    with False executed_result(1) [OF assms(1) copied _ _ this _ same] r assms(3)
    show ?thesis by simp
  qed
qed

subsection \<open>An optimizer that obeys its contract\<close>





subsection \<open>Option values and the loop over the arguments\<close>

lemma strcasecmp_eq_iff: "strcasecmp a b = 0 \<longleftrightarrow> map c_tolower a = map c_tolower b"
  by (induction a b rule: strcasecmp.induct) auto

lemma c_tolower_eq_lower:
  assumes "97 \<le> (of_char l :: nat)" and "(of_char l :: nat) \<le> 122"
  shows "c_tolower a = l \<longleftrightarrow> same_letter a l"
proof (cases "65 \<le> (of_char a :: nat) \<and> (of_char a :: nat) \<le> 90")
  case True
  then have "c_tolower a = char_of (of_char a + 32 :: nat)"
    by (simp add: c_tolower_def)
  moreover have "char_of (of_char a + 32 :: nat) = l \<longleftrightarrow> (of_char l :: nat) = of_char a + 32"
    using True by (auto simp: char_of_eq_iff take_bit_eq_mod)
  moreover have "a \<noteq> l"
    using True assms by auto
  ultimately show ?thesis
    using True assms by (auto simp: same_letter_def)
next
  case False
  then have "c_tolower a = a"
    by (auto simp: c_tolower_def)
  then show ?thesis
    using False assms by (auto simp: same_letter_def)
qed

lemma c_tolower_eq_one: "c_tolower a = CHR ''1'' \<longleftrightarrow> a = CHR ''1''"
proof (cases "65 \<le> (of_char a :: nat) \<and> (of_char a :: nat) \<le> 90")
  case True
  then have "c_tolower a = char_of (of_char a + 32 :: nat)"
    by (simp add: c_tolower_def)
  moreover have "char_of (of_char a + 32 :: nat) \<noteq> CHR ''1''"
    using True by (auto simp: char_of_eq_iff take_bit_eq_mod)
  moreover have "a \<noteq> CHR ''1''"
    using True by auto
  ultimately show ?thesis by simp
next
  case False
  then show ?thesis by (auto simp: c_tolower_def)
qed

lemma c_tolower_literals [simp]:
  "c_tolower CHR ''t'' = CHR ''t''" "c_tolower CHR ''r'' = CHR ''r''"
  "c_tolower CHR ''u'' = CHR ''u''" "c_tolower CHR ''e'' = CHR ''e''"
  "c_tolower CHR ''1'' = CHR ''1''"
  by (simp_all add: c_tolower_def)

lemma strcasecmp_true: "strcasecmp v ''true'' = 0 \<longleftrightarrow> list_all2 same_letter v ''true''"
proof -
  have "strcasecmp v ''true'' = 0 \<longleftrightarrow> map c_tolower v = ''true''"
    by (simp add: strcasecmp_eq_iff)
  also have "\<dots> \<longleftrightarrow> list_all2 (\<lambda>a l. c_tolower a = l) v ''true''"
    by (auto simp: list_all2_Cons2 map_eq_Cons_conv)
  also have "\<dots> \<longleftrightarrow> list_all2 same_letter v ''true''"
    by (simp add: list_all2_Cons2 c_tolower_eq_lower)
  finally show ?thesis .
qed

lemma strcasecmp_one: "strcasecmp v ''1'' = 0 \<longleftrightarrow> v = ''1''"
  by (auto simp: strcasecmp_eq_iff map_eq_Cons_conv c_tolower_eq_one)

lemma value_is_true_iff: "value_is_true (Some v) = Inr (option_is_true v)"
  by (simp add: value_is_true_def option_is_true_def strcasecmp_true strcasecmp_one)


lemma key_is_true_value:
  "key_is_true k \<lparr>arg_key = k', arg_value = Some v\<rparr> = Inr (k' = k \<and> option_is_true v)"
  by (simp add: key_is_true_def strcmp_eq_iff value_is_true_iff)

lemma scan_args_values:
  "scan_args (map (\<lambda>(k, v). \<lparr>arg_key = k, arg_value = Some v\<rparr>) kvs) my_params =
     Inr (if \<exists>(k, v)\<in>set kvs. k = ''disable'' \<and> option_is_true v then None
          else Some (my_params\<lparr>keep_files := keep_files my_params
                       \<or> (\<exists>(k, v)\<in>set kvs. k = ''keep-files'' \<and> option_is_true v)\<rparr>))"
proof (induction kvs arbitrary: my_params)
  case Nil
  show ?case by simp
next
  case (Cons kv kvs)
  obtain k v where kv: "kv = (k, v)"
    by (cases kv)
  show ?case
  proof (cases "k = ''disable'' \<and> option_is_true v")
    case True
    then show ?thesis
      by (simp add: kv key_is_true_value)
  next
    case False
    then have "scan_args (map (\<lambda>(k, v). \<lparr>arg_key = k, arg_value = Some v\<rparr>) (kv # kvs)) my_params
        = scan_args (map (\<lambda>(k, v). \<lparr>arg_key = k, arg_value = Some v\<rparr>) kvs)
            (if k = ''keep-files'' \<and> option_is_true v then my_params\<lparr>keep_files := True\<rparr>
             else my_params)"
      by (auto simp: kv key_is_true_value)
    with False show ?thesis
      unfolding Cons.IH by (auto simp: kv)
  qed
qed

text \<open>
  When every argument carries a value, the two options are read as the specification
  says: a true \<open>disable\<close> leaves the callback unregistered, and otherwise
  \<open>keep_files\<close> is set exactly when some \<open>keep-files\<close> argument is true.
\<close>

lemma plugin_init_values:
  "plugin_init True (map (\<lambda>(k, v). \<lparr>arg_key = k, arg_value = Some v\<rparr>) kvs) w =
     Inr (if \<exists>(k, v)\<in>set kvs. k = ''disable'' \<and> option_is_true v
          then (0, None, w)
          else (0, Some \<lparr>keep_files =
                   (\<exists>(k, v)\<in>set kvs. k = ''keep-files'' \<and> option_is_true v)\<rparr>, w))"
  by (simp add: plugin_init_def scan_args_values)

subsection \<open>The second variant never changes a file\<close>

lemma peephole_files:
  "files (snd (peephole_optimize e filename_ptr w)) = files w
   \<and> execs (snd (peephole_optimize e filename_ptr w)) = execs w"
proof -
  have "files (fwrite f orig (w\<lparr>files := (files w)(f \<mapsto> []), space := (space w)(f := room w f)\<rparr>))
        = files w" if "files w f = Some orig" for f orig
    using that
    by (cases "space w f")
       (auto simp: fwrite_def Let_def accepted_def room_def bytes_at_def fun_upd_idem)
  then show ?thesis
    by (auto simp: peephole_optimize_def fprintf_stderr_def fopen_r_def fopen_w_def
          Let_def split: option.splits if_splits)
qed

subsection \<open>The scenarios evaluated\<close>

lemma scenario_names [simp]:
  "ends_with_s ''main.s''" "filename_copy ''main.s'' = ''main.copy.s''"
  "filename_optimized ''main.s'' = ''main.opt.s''"
  by (simp_all add: ends_with_s_iff filename_copy_def filename_optimized_def)

lemma scenario_env_simps [simp]:
  "can_read (scenario_env r wr ret) p = r"
  "can_write (scenario_env r wr ret) p = wr"
  "can_remove (scenario_env r wr ret) p"
  by (simp_all add: scenario_env_def)

lemma scenario_world_simps [simp]:
  "space scenario_world p = None" "room scenario_world p = None"
  "stored scenario_world p data = data"
  "stderr scenario_world = []" "execs scenario_world = []"
  by (simp_all add: scenario_world_def room_def stored_def accepted_def)

lemma scenario_run_found:
  "fs ''main.s'' = Some c \<Longrightarrow>
   run (scenario_env r wr ret) command fs =
     (if ret = 0 then (0, fs(''main.opt.s'' \<mapsto> ''mov eax, 2'' @ nl)) else (ret, fs))"
  by (simp add: scenario_env_def)

lemma fmt_d_256 [simp]: "fmt_d 256 = ''256''"
  by code_simp

lemma scenario_run [simp]:
  "run (scenario_env r wr ret) (command_line ''main.s'')
      (files_before_optimizer ''main.s'' p scenario_world)
   = (if ret = 0
      then (0, (files_before_optimizer ''main.s'' p scenario_world)
                 (''main.opt.s'' \<mapsto> ''mov eax, 2'' @ nl))
      else (ret, files_before_optimizer ''main.s'' p scenario_world))"
  by (rule scenario_run_found [where c = "''mov eax, 1'' @ nl"])
     (simp add: files_before_optimizer_def scenario_world_def)


lemma fussy_env_simps [simp]:
  "can_read fussy_env p" "can_write fussy_env p" "can_remove fussy_env p"
  "can_read verbose_env p" "can_write verbose_env p" "can_remove verbose_env p"
  by (simp_all add: fussy_env_def verbose_env_def)





lemma length_long_output: "length long_output = 4100"
  by (simp add: long_output_def length_concat sum_list_replicate nl_def)

lemma full_disk_result:
  "fst (my_optimize_func verbose_env (Some ''main.s'') \<lparr>keep_files = False\<rparr> full_world)
     = Executed"
  "files (snd (my_optimize_func verbose_env (Some ''main.s'') \<lparr>keep_files = False\<rparr> full_world))
     ''main.s'' = Some (take 4096 long_output)"
  "files (snd (my_optimize_func verbose_env (Some ''main.s'') \<lparr>keep_files = False\<rparr> full_world))
     ''main.opt.s'' = None"
  "stderr (snd (my_optimize_func verbose_env (Some ''main.s'') \<lparr>keep_files = False\<rparr> full_world))
     = [''[PLUGIN] Invoked'' @ nl, ''[PLUGIN] Optimizer executed on: main.s'' @ nl]"
  "snd (run verbose_env (command_line ''main.s'')
          (files_before_optimizer ''main.s'' \<lparr>keep_files = False\<rparr> full_world)) ''main.opt.s''
     = Some long_output"
proof -
  let ?p = "\<lparr>keep_files = False\<rparr>"
  have c: "keep_files ?p \<longrightarrow> can_write verbose_env (filename_copy ''main.s'')
             \<and> fopen_r verbose_env ''main.s'' full_world \<noteq> None"
    by simp
  have fb: "files_before_optimizer ''main.s'' ?p full_world = files full_world"
    by (simp add: files_before_optimizer_def)
  have r: "run verbose_env (command_line ''main.s'') (files_before_optimizer ''main.s'' ?p full_world)
           = (0, (files full_world)(''main.opt.s'' \<mapsto> long_output))"
    unfolding fb by (simp add: verbose_env_def full_world_def)
  have st: "stored full_world ''main.s'' long_output = take 4096 long_output"
    by (simp add: stored_def room_def bytes_at_def accepted_def full_world_def nl_def)
  have o: "((files full_world)(''main.opt.s'' \<mapsto> long_output)) (filename_optimized ''main.s'')
           = Some long_output"
    by simp
  have sm: "((files full_world)(''main.opt.s'' \<mapsto> long_output)) ''main.s''
            = files full_world ''main.s''"
    by simp
  have pr: "can_read verbose_env (filename_optimized ''main.s'')"
    and pw: "can_write verbose_env ''main.s''"
    by simp_all
  note res = executed_result [OF scenario_names(1) c r pr o pw sm]
  show "fst (my_optimize_func verbose_env (Some ''main.s'') ?p full_world) = Executed"
    by (rule res(1))
  show "files (snd (my_optimize_func verbose_env (Some ''main.s'') ?p full_world)) ''main.s''
        = Some (take 4096 long_output)"
    unfolding res(2) st ..
  show "files (snd (my_optimize_func verbose_env (Some ''main.s'') ?p full_world)) ''main.opt.s''
        = None"
    using res(3) by simp
  have "stderr full_world = []"
    by (simp add: full_world_def)
  with res(5)
  show "stderr (snd (my_optimize_func verbose_env (Some ''main.s'') ?p full_world))
        = [''[PLUGIN] Invoked'' @ nl, ''[PLUGIN] Optimizer executed on: main.s'' @ nl]"
    by simp
  show "snd (run verbose_env (command_line ''main.s'')
          (files_before_optimizer ''main.s'' ?p full_world)) ''main.opt.s'' = Some long_output"
    by (simp add: r)
qed

subsection \<open>The claims\<close>

text \<open>
  C1. A failure must leave the file either with its original content or with the whole
  optimized content, never with part of it. The function does not keep to this: it looks
  at the result of no \<open>fwrite\<close> and no \<open>fclose\<close>. On the full disk it truncates
  \<open>main.s\<close>, gets 4096 of the 4100 bytes of the optimized file into it, and reports
  success; what the file holds is neither the original nor the optimized content.
\<close>

theorem partial_file_after_reported_success:
  "fst (my_optimize_func verbose_env (Some ''main.s'') \<lparr>keep_files = False\<rparr> full_world)
     = Executed
   \<and> last (stderr (snd (my_optimize_func verbose_env (Some ''main.s'') \<lparr>keep_files = False\<rparr>
                          full_world)))
       = ''[PLUGIN] Optimizer executed on: main.s'' @ nl
   \<and> files (snd (my_optimize_func verbose_env (Some ''main.s'') \<lparr>keep_files = False\<rparr>
                   full_world)) ''main.s'' = Some (take 4096 long_output)
   \<and> length (take 4096 long_output) = 4096
   \<and> length long_output = 4100
   \<and> files (snd (my_optimize_func verbose_env (Some ''main.s'') \<lparr>keep_files = False\<rparr>
                   full_world)) ''main.s'' \<noteq> files full_world ''main.s''
   \<and> files (snd (my_optimize_func verbose_env (Some ''main.s'') \<lparr>keep_files = False\<rparr>
                   full_world)) ''main.s'' \<noteq> Some long_output"
proof -
  have "take 4096 long_output \<noteq> long_output"
  proof
    assume "take 4096 long_output = long_output"
    then have "length (take 4096 long_output) = length long_output"
      by simp
    then show False
      by (simp add: length_long_output)
  qed
  moreover have "take 4096 long_output \<noteq> ''mov eax, 1'' @ nl"
  proof
    assume "take 4096 long_output = ''mov eax, 1'' @ nl"
    then have "length (take 4096 long_output) = length (''mov eax, 1'' @ nl)"
      by simp
    then show False
      by (simp add: length_long_output nl_def)
  qed
  moreover have "files full_world ''main.s'' = Some (''mov eax, 1'' @ nl)"
    by (simp add: full_world_def)
  ultimately show ?thesis
    using full_disk_result length_long_output by simp
qed

text \<open>
  C2. After a call that reports success the file should hold exactly what the optimizer
  wrote to the optimized file. On the full disk the optimizer returns 0 and writes
  4100 bytes, the function reaches its end, the file does not hold them, and the
  optimized file, the only whole copy of them, has been removed.
\<close>

theorem success_without_the_output:
  "fst (run verbose_env (command_line ''main.s'')
          (files_before_optimizer ''main.s'' \<lparr>keep_files = False\<rparr> full_world)) = 0
   \<and> snd (run verbose_env (command_line ''main.s'')
          (files_before_optimizer ''main.s'' \<lparr>keep_files = False\<rparr> full_world)) ''main.opt.s''
       = Some long_output
   \<and> fst (my_optimize_func verbose_env (Some ''main.s'') \<lparr>keep_files = False\<rparr> full_world)
       = Executed
   \<and> files (snd (my_optimize_func verbose_env (Some ''main.s'') \<lparr>keep_files = False\<rparr>
                   full_world)) ''main.s'' \<noteq> Some long_output
   \<and> files (snd (my_optimize_func verbose_env (Some ''main.s'') \<lparr>keep_files = False\<rparr>
                   full_world)) ''main.opt.s'' = None"
proof -
  have "take 4096 long_output \<noteq> long_output"
  proof
    assume "take 4096 long_output = long_output"
    then have "length (take 4096 long_output) = length long_output"
      by simp
    then show False
      by (simp add: length_long_output)
  qed
  moreover have "fst (run verbose_env (command_line ''main.s'')
          (files_before_optimizer ''main.s'' \<lparr>keep_files = False\<rparr> full_world)) = 0"
    by (simp add: files_before_optimizer_def verbose_env_def full_world_def)
  ultimately show ?thesis
    using full_disk_result by simp
qed

text \<open>
  C3. When the optimizer is run and returns a status other than zero, the function stops
  without writing to the file: the files are as the optimizer left them, the file has
  the content it had before the call (the optimizer does not change its input), and
  an error line with the status is printed.
\<close>

theorem optimizer_failure:
  assumes "ends_with_s filename"
    and "keep_files p \<longrightarrow> fopen_w e (filename_copy filename) w \<noteq> None \<and> fopen_r e filename w \<noteq> None"
    and "run e (command_line filename) (files_before_optimizer filename p w) = (ret, fs)"
    and "ret \<noteq> 0"
    and "fs filename = files w filename"
  shows "fst (my_optimize_func e (Some filename) p w) = Failed_optimizer ret
         \<and> files (snd (my_optimize_func e (Some filename) p w)) = fs
         \<and> files (snd (my_optimize_func e (Some filename) p w)) filename = files w filename
         \<and> execs (snd (my_optimize_func e (Some filename) p w)) = execs w @ [command_line filename]
         \<and> stderr (snd (my_optimize_func e (Some filename) p w))
             = stderr w @ [''[PLUGIN] Invoked'' @ nl,
                          COLOR_RED @ ''[PLUGIN] ERROR: Python optimizer failed with code ''
                            @ fmt_d ret @ nl @ COLOR_RESET]"
proof -
  have copied: "keep_files p \<longrightarrow> can_write e (filename_copy filename) \<and> fopen_r e filename w \<noteq> None"
    using assms(2) by (auto simp: fopen_w_def split: if_splits)
  from my_optimize_func_copied [OF assms(1) copied, of ] obtain sp where
    eq: "my_optimize_func e (Some filename) p w =
           optimize_and_replace e filename p
             (PRINT_INFO (''Invoked'' @ nl)
                (w\<lparr>files := files_before_optimizer filename p w, space := sp\<rparr>))"
    by blast
  have run': "run e (command_line filename)
      (files (PRINT_INFO (''Invoked'' @ nl)
                (w\<lparr>files := files_before_optimizer filename p w, space := sp\<rparr>))) = (ret, fs)"
    using assms(3) by simp
  show ?thesis
    unfolding eq optimize_and_replace_eq [OF run']
    using assms(4,5) by (simp add: Let_def)
qed

theorem optimizer_failure_witness:
  "fst (my_optimize_func (scenario_env True True 256) (Some ''main.s'')
          \<lparr>keep_files = True\<rparr> scenario_world) = Failed_optimizer 256
   \<and> files (snd (my_optimize_func (scenario_env True True 256) (Some ''main.s'')
                   \<lparr>keep_files = True\<rparr> scenario_world)) ''main.s''
       = Some (''mov eax, 1'' @ nl)
   \<and> last (stderr (snd (my_optimize_func (scenario_env True True 256) (Some ''main.s'')
                   \<lparr>keep_files = True\<rparr> scenario_world)))
       = COLOR_RED @ ''[PLUGIN] ERROR: Python optimizer failed with code 256'' @ nl
           @ COLOR_RESET"
proof -
  let ?e = "scenario_env True True 256" and ?p = "\<lparr>keep_files = True\<rparr>"
  have h2: "keep_files ?p \<longrightarrow> fopen_w ?e (filename_copy ''main.s'') scenario_world \<noteq> None
              \<and> fopen_r ?e ''main.s'' scenario_world \<noteq> None"
    by (simp add: fopen_w_def fopen_r_def scenario_world_def)
  have h3: "run ?e (command_line ''main.s'') (files_before_optimizer ''main.s'' ?p scenario_world)
            = (256, files_before_optimizer ''main.s'' ?p scenario_world)"
    by simp
  have h5: "files_before_optimizer ''main.s'' ?p scenario_world ''main.s''
            = files scenario_world ''main.s''"
    by (simp add: files_before_optimizer_def)
  have orig: "files scenario_world ''main.s'' = Some (''mov eax, 1'' @ nl)"
    by (simp add: scenario_world_def)
  from optimizer_failure [OF scenario_names(1) h2 h3 _ h5] orig h5
  show ?thesis by simp
qed

text \<open>
  C4. With \<open>keep_files\<close> set, when the copy cannot be opened for writing or the
  original cannot be opened for reading, the function stops: the original keeps its
  content and the optimizer is not run.
\<close>

theorem backup_failure_aborts:
  assumes "ends_with_s filename" and "keep_files p"
    and "fopen_w e (filename_copy filename) w = None \<or> fopen_r e filename w = None"
  shows "files (snd (my_optimize_func e (Some filename) p w)) filename = files w filename
         \<and> execs (snd (my_optimize_func e (Some filename) p w)) = execs w
         \<and> fst (my_optimize_func e (Some filename) p w) \<in> {Failed_copy_open, Failed_orig_open}"
  using assms
  by (auto simp: my_optimize_func_eq keep_copy_eq fopen_w_def split: if_splits)

theorem backup_failure_aborts_witness:
  "keep_files \<lparr>keep_files = True\<rparr>
   \<and> fopen_w (scenario_env True False 0) (filename_copy ''main.s'') scenario_world = None
   \<and> files (snd (my_optimize_func (scenario_env True False 0) (Some ''main.s'')
                   \<lparr>keep_files = True\<rparr> scenario_world)) ''main.s''
       = Some (''mov eax, 1'' @ nl)
   \<and> execs (snd (my_optimize_func (scenario_env True False 0) (Some ''main.s'')
                   \<lparr>keep_files = True\<rparr> scenario_world)) = []"
proof -
  have h: "fopen_w (scenario_env True False 0) (filename_copy ''main.s'') scenario_world = None"
    by (simp add: fopen_w_def scenario_env_def)
  with backup_failure_aborts [of "''main.s''" "\<lparr>keep_files = True\<rparr>"
      "scenario_env True False 0" scenario_world]
  show ?thesis by (simp add: scenario_world_def)
qed

text \<open>
  C5. When the name of the assembly file is missing, is empty, is \<open>/dev/null\<close> or
  does not end with \<open>.s\<close>, the function is a no-op: every file keeps its content, no
  file appears or disappears, and no command is run. The second variant changes no
  file and runs no command either, and returns at once for a missing name and for
  \<open>/dev/null\<close>.
\<close>

theorem skip_is_noop:
  assumes "filename_ptr = None \<or> filename_ptr = Some [] \<or> filename_ptr = Some ''/dev/null''
           \<or> (\<exists>f. filename_ptr = Some f \<and> (\<nexists>base. f = base @ ''.s''))"
  shows "files (snd (my_optimize_func e filename_ptr p w)) = files w
         \<and> execs (snd (my_optimize_func e filename_ptr p w)) = execs w
         \<and> fst (my_optimize_func e filename_ptr p w) \<in> {Skipped_no_asm, Skipped_not_s}
         \<and> files (snd (peephole_optimize e filename_ptr w)) = files w
         \<and> execs (snd (peephole_optimize e filename_ptr w)) = execs w
         \<and> (filename_ptr = None \<or> filename_ptr = Some ''/dev/null''
              \<longrightarrow> peephole_optimize e filename_ptr w = (Skipped_no_asm, w))"
proof -
  have second: "filename_ptr = None \<or> filename_ptr = Some ''/dev/null''
      \<longrightarrow> peephole_optimize e filename_ptr w = (Skipped_no_asm, w)"
    by (auto simp: peephole_optimize_def)
  consider "filename_ptr = None" | "filename_ptr = Some ''/dev/null''"
    | f where "filename_ptr = Some f" "\<not> ends_with_s f"
    using assms by (auto simp: ends_with_s_iff)
  then have "files (snd (my_optimize_func e filename_ptr p w)) = files w
         \<and> execs (snd (my_optimize_func e filename_ptr p w)) = execs w
         \<and> fst (my_optimize_func e filename_ptr p w) \<in> {Skipped_no_asm, Skipped_not_s}"
  proof cases
    case 1
    then show ?thesis by (simp add: my_optimize_func_def)
  next
    case 2
    then show ?thesis by (simp add: my_optimize_func_def)
  next
    case 3
    then show ?thesis by (simp add: my_optimize_func_def Let_def)
  qed
  with second peephole_files [of e filename_ptr w] show ?thesis
    by blast
qed

theorem skip_is_noop_witness:
  "files (snd (my_optimize_func (scenario_env True True 0) (Some ''main.c'')
                 \<lparr>keep_files = False\<rparr> scenario_world)) = files scenario_world
   \<and> execs (snd (my_optimize_func (scenario_env True True 0) (Some ''main.c'')
                 \<lparr>keep_files = False\<rparr> scenario_world)) = []
   \<and> fst (my_optimize_func (scenario_env True True 0) (Some ''main.c'')
            \<lparr>keep_files = False\<rparr> scenario_world) = Skipped_not_s"
proof -
  have "\<not> ends_with_s ''main.c''"
    by (simp add: ends_with_s_def)
  then have h: "\<nexists>base. ''main.c'' = base @ ''.s''"
    by (simp add: ends_with_s_iff)
  have "fst (my_optimize_func (scenario_env True True 0) (Some ''main.c'')
            \<lparr>keep_files = False\<rparr> scenario_world) \<noteq> Skipped_no_asm"
    by (simp add: my_optimize_func_def Let_def \<open>\<not> ends_with_s ''main.c''\<close>)
  with h skip_is_noop [of "Some ''main.c''" "scenario_env True True 0"
      "\<lparr>keep_files = False\<rparr>" scenario_world]
  show ?thesis by (simp add: scenario_world_def)
qed

text \<open>
  C6. For every name ending in \<open>.s\<close>, the derived names are the name with its final
  two characters replaced by \<open>.opt.s\<close> and by \<open>.copy.s\<close>; for \<open>main.s\<close> they are
  \<open>main.opt.s\<close> and \<open>main.copy.s\<close>.
\<close>

theorem derived_paths:
  "filename_optimized (base @ ''.s'') = base @ ''.opt.s''
   \<and> filename_copy (base @ ''.s'') = base @ ''.copy.s''
   \<and> ends_with_s (base @ ''.s'')
   \<and> filename_optimized ''main.s'' = ''main.opt.s''
   \<and> filename_copy ''main.s'' = ''main.copy.s''"
  by (simp add: filename_optimized_def filename_copy_def ends_with_s_iff)




text \<open>
  C8. A value other than \<open>true\<close> and \<open>1\<close> should leave an option false. For a
  \<open>disable\<close> or \<open>keep-files\<close> argument given without a value the function hands a
  \<open>NULL\<close> pointer to \<open>strcasecmp\<close> and the process ends there; with the value
  \<open>0\<close> the callback is registered with \<open>keep_files\<close> false.
\<close>

theorem plugin_init_null_value:
  "plugin_init True [\<lparr>arg_key = ''disable'', arg_value = None\<rparr>] w = Inl Null_dereference
   \<and> plugin_init True [\<lparr>arg_key = ''keep-files'', arg_value = None\<rparr>] w = Inl Null_dereference
   \<and> plugin_init True [\<lparr>arg_key = ''disable'', arg_value = Some ''0''\<rparr>] w
       = Inr (0, Some \<lparr>keep_files = False\<rparr>, w)"
  by (simp add: plugin_init_def key_is_true_def value_is_true_def c_tolower_def)

text \<open>
  C9. With \<open>keep_files\<close> set, the copy is opened for writing before the original is
  opened for reading. When the first succeeds and the second fails, the function stops
  and leaves an empty file under the name of the copy: the set of files has changed
  when there was no such file, and the original is untouched.
\<close>

theorem failed_backup_leaves_empty_copy:
  assumes "ends_with_s filename" and "keep_files p"
    and "fopen_w e (filename_copy filename) w \<noteq> None" and "fopen_r e filename w = None"
  shows "fst (my_optimize_func e (Some filename) p w) = Failed_orig_open
         \<and> files (snd (my_optimize_func e (Some filename) p w))
             = (files w)(filename_copy filename \<mapsto> [])
         \<and> files (snd (my_optimize_func e (Some filename) p w)) filename = files w filename
         \<and> (filename_copy filename \<notin> dom (files w) \<longrightarrow>
              dom (files (snd (my_optimize_func e (Some filename) p w))) \<noteq> dom (files w))"
  using assms
  by (auto simp: my_optimize_func_eq keep_copy_eq fopen_w_def split: if_splits)

theorem failed_backup_leaves_empty_copy_witness:
  "fopen_w (scenario_env False True 0) (filename_copy ''main.s'') scenario_world \<noteq> None
   \<and> fopen_r (scenario_env False True 0) ''main.s'' scenario_world = None
   \<and> files (snd (my_optimize_func (scenario_env False True 0) (Some ''main.s'')
                   \<lparr>keep_files = True\<rparr> scenario_world))
       = [''main.s'' \<mapsto> ''mov eax, 1'' @ nl, ''main.copy.s'' \<mapsto> []]
   \<and> dom (files (snd (my_optimize_func (scenario_env False True 0) (Some ''main.s'')
                   \<lparr>keep_files = True\<rparr> scenario_world)))
       \<noteq> dom (files scenario_world)"
proof -
  have h1: "fopen_w (scenario_env False True 0) (filename_copy ''main.s'') scenario_world \<noteq> None"
    by (simp add: fopen_w_def scenario_env_def)
  have h2: "fopen_r (scenario_env False True 0) ''main.s'' scenario_world = None"
    by (simp add: fopen_r_def scenario_env_def)
  have h3: "filename_copy ''main.s'' \<notin> dom (files scenario_world)"
    by (simp add: scenario_world_def)
  from failed_backup_leaves_empty_copy [of "''main.s''" "\<lparr>keep_files = True\<rparr>"
      "scenario_env False True 0" scenario_world] h1 h2 h3
  show ?thesis by (simp add: scenario_world_def)
qed

text \<open>
  C10. In the second variant, a file that can be opened for reading and then for writing
  is written back with exactly the bytes read: its content, every other file and the set
  of files are as before, and no command is run.
\<close>

theorem peephole_identity:
  assumes "fopen_r e filename w = Some original"
    and "fopen_w e filename w \<noteq> None"
    and "filename \<noteq> ''/dev/null''"
  shows "fst (peephole_optimize e (Some filename) w) = Executed
         \<and> files (snd (peephole_optimize e (Some filename) w)) filename = Some original
         \<and> files (snd (peephole_optimize e (Some filename) w)) = files w
         \<and> execs (snd (peephole_optimize e (Some filename) w)) = execs w"
proof -
  have "files w filename = Some original"
    using assms(1) by (simp add: fopen_r_def split: if_splits)
  moreover have "fst (peephole_optimize e (Some filename) w) = Executed"
    using assms by (auto simp: peephole_optimize_def strcmp_eq_iff Let_def split: option.splits)
  ultimately show ?thesis
    by (simp add: peephole_files)
qed

theorem peephole_identity_witness:
  "fst (peephole_optimize (scenario_env True True 0) (Some ''main.s'') scenario_world) = Executed
   \<and> files (snd (peephole_optimize (scenario_env True True 0) (Some ''main.s'') scenario_world))
       ''main.s'' = Some (''mov eax, 1'' @ nl)
   \<and> files (snd (peephole_optimize (scenario_env True True 0) (Some ''main.s'') scenario_world))
       = files scenario_world"
proof -
  have h1: "fopen_r (scenario_env True True 0) ''main.s'' scenario_world
            = Some (''mov eax, 1'' @ nl)"
    by (simp add: fopen_r_def scenario_world_def)
  have h2: "fopen_w (scenario_env True True 0) ''main.s'' scenario_world \<noteq> None"
    by (simp add: fopen_w_def)
  have h3: "''main.s'' \<noteq> ''/dev/null''"
    by simp
  from peephole_identity [OF h1 h2 h3] show ?thesis by (simp add: scenario_world_def)
qed

end
